theory Spec2Isabelle
  imports Main "HOL-Library.AList"
begin

section \<open>Python values\<close>

text \<open>
  The dispatcher of \<^verbatim>\<open>rplugin/python3/deoplete/parent.py\<close> handles values of
  type \<^verbatim>\<open>typing.Any\<close>: the completion context, the arguments of a call, and the
  frames that msgpack decodes from the child's standard output. They are modelled by
  the values below. A dict is an association list read with \<open>map_of\<close> (the first
  binding of a key is the dict's entry); its keys are strings, as the keys of a context
  and of a response are. msgpack also decodes floats and byte strings: for every
  operation \<^verbatim>\<open>parent.py\<close> performs on a frame (subscripting with a string) they
  behave as \<open>PInt\<close> and \<open>PStr\<close> do, and they are left out.
\<close>

datatype pyval =
    PNone
  | PBool bool
  | PInt int
  | PStr string
  | PList "pyval list"
  | PDict "(string \<times> pyval) list"

text \<open>
  The exceptions that the code of \<^verbatim>\<open>parent.py\<close> can raise or catch, with those
  that the packer raises.
\<close>

datatype exc = KeyError | TypeError | BrokenPipeError | OverflowError | ValueError

text \<open>Truth value testing (\<^verbatim>\<open>if x:\<close>, \<^verbatim>\<open>not x\<close>).\<close>

fun truthy :: "pyval \<Rightarrow> bool" where
  "truthy PNone = False"
| "truthy (PBool b) = b"
| "truthy (PInt i) = (i \<noteq> 0)"
| "truthy (PStr s) = (s \<noteq> [])"
| "truthy (PList xs) = (xs \<noteq> [])"
| "truthy (PDict kvs) = (kvs \<noteq> [])"

text \<open>
  Python's \<^verbatim>\<open>==\<close>. \<^verbatim>\<open>True == 1\<close> and \<^verbatim>\<open>False == 0\<close> hold; lists are
  compared element by element; dicts are equal when they have the same keys with equal
  values, whatever the order; values of different kinds are unequal.
  \<open>list_eq_with\<close> and \<open>dict_eq_with\<close> compare with the left operand's
  recursive calls already taken: the first argument holds, for each element of the left
  list or dict, its comparison.
\<close>

fun list_eq_with :: "('a \<Rightarrow> bool) list \<Rightarrow> 'a list \<Rightarrow> bool" where
  "list_eq_with [] [] = True"
| "list_eq_with (f # fs) (y # ys) = (f y \<and> list_eq_with fs ys)"
| "list_eq_with _ _ = False"

definition dict_eq_with :: "(string \<times> ('a \<Rightarrow> bool)) list \<Rightarrow> (string \<times> 'a) list \<Rightarrow> bool" where
  "dict_eq_with fs ys =
     (set (map fst fs) = set (map fst ys) \<and>
      list_all (\<lambda>k. case (map_of fs k, map_of ys k) of
                       (Some f, Some y) \<Rightarrow> f y
                     | _ \<Rightarrow> False) (map fst fs))"

primrec py_eq :: "pyval \<Rightarrow> pyval \<Rightarrow> bool" where
  "py_eq PNone v = (case v of PNone \<Rightarrow> True | _ \<Rightarrow> False)"
| "py_eq (PBool a) v =
     (case v of PBool b \<Rightarrow> a = b | PInt j \<Rightarrow> (if a then 1 else 0) = j | _ \<Rightarrow> False)"
| "py_eq (PInt i) v =
     (case v of PInt j \<Rightarrow> i = j | PBool b \<Rightarrow> i = (if b then 1 else 0) | _ \<Rightarrow> False)"
| "py_eq (PStr a) v = (case v of PStr b \<Rightarrow> a = b | _ \<Rightarrow> False)"
| "py_eq (PList xs) v =
     (case v of PList ys \<Rightarrow> list_eq_with (map py_eq xs) ys | _ \<Rightarrow> False)"
| "py_eq (PDict kvs) v =
     (case v of PDict kws \<Rightarrow> dict_eq_with (map (map_prod id py_eq) kvs) kws | _ \<Rightarrow> False)"

text \<open>
  Subscripting with a string key, \<^verbatim>\<open>x['key']\<close>: a dict gives the entry or raises
  \<^verbatim>\<open>KeyError\<close>; every other value raises \<^verbatim>\<open>TypeError\<close> (it is not
  subscriptable, or its indices must be integers).
\<close>

fun subscript :: "pyval \<Rightarrow> string \<Rightarrow> exc + pyval" where
  "subscript (PDict kvs) k = (case map_of kvs k of None \<Rightarrow> Inl KeyError | Some v \<Rightarrow> Inr v)"
| "subscript _ k = Inl TypeError"


section \<open>The host, the pipe and the state of a dispatcher\<close>

text \<open>
  The collaborators of the dispatcher are outside the file; the model records what the
  dispatcher does to them.
  \<^item> The host (\<^verbatim>\<open>self._vim\<close>): \<^verbatim>\<open>error(vim, msg)\<close> and
    \<^verbatim>\<open>error_tb(vim, msg)\<close> of \<^verbatim>\<open>deoplete.util\<close> show a message; the messages
    shown are kept in \<open>vim_errors\<close>, in order.
  \<^item> The packer (\<^verbatim>\<open>self._packer\<close>): \<^verbatim>\<open>pack\<close> turns a call into
    bytes. The encoding is msgpack's; the model keeps the envelope itself for its bytes and
    logs every packed envelope in \<open>packed\<close>.
  \<^item> The pipe to the child's standard input (\<^verbatim>\<open>self._stdin\<close>): a write
    either succeeds or raises \<^verbatim>\<open>BrokenPipeError\<close>. \<open>writes_left\<close> says how
    many more writes succeed before the pipe breaks (\<open>None\<close>: it never breaks), which
    covers every behaviour of the pipe in one session, and \<open>written\<close> is what
    reached the pipe.
\<close>

datatype host_msg = Error string | ErrorTb string

record envelope =
  env_name :: string
  env_args :: "pyval list"
  env_queue_id :: string

record pipe =
  written :: "envelope list"
  writes_left :: "nat option"

definition pipe_write :: "pipe \<Rightarrow> envelope \<Rightarrow> exc + pipe" where
  "pipe_write p msg =
     (case writes_left p of
        None \<Rightarrow> Inr (p\<lparr>written := written p @ [msg]\<rparr>)
      | Some 0 \<Rightarrow> Inl BrokenPipeError
      | Some (Suc n) \<Rightarrow> Inr (p\<lparr>written := written p @ [msg], writes_left := Some n\<rparr>))"

text \<open>
  \<^verbatim>\<open>self._packer.pack(obj)\<close> of msgpack raises for an object that has no encoding:
  \<^verbatim>\<open>OverflowError\<close> for an integer outside 64 bits (below \<open>-2^63\<close> or above
  \<open>2^64 - 1\<close>), \<^verbatim>\<open>ValueError\<close> for a string, list or dict of more than
  \<open>2^32 - 1\<close> bytes or items and for an object nested deeper than the packer's limit of
  511 levels. The packer walks the object in order (a dict by its items, key then value)
  and raises at the first such part; \<open>pack_val v l\<close> is that exception, if any, for the
  value \<open>v\<close> with \<open>l\<close> levels of nesting left. Nothing is produced when it raises.
\<close>

definition ITEM_LIMIT :: nat where
  "ITEM_LIMIT = 2 ^ 32 - 1"

definition RECURSE_LIMIT :: int where
  "RECURSE_LIMIT = 511"

fun first_error :: "exc option list \<Rightarrow> exc option" where
  "first_error [] = None"
| "first_error (None # rs) = first_error rs"
| "first_error (Some e # rs) = Some e"

definition pack_str :: "string \<Rightarrow> int \<Rightarrow> exc option" where
  "pack_str x l =
     (if l < 0 then Some ValueError
      else if ITEM_LIMIT < length x then Some ValueError
      else None)"

primrec pack_val :: "pyval \<Rightarrow> int \<Rightarrow> exc option" where
  "pack_val PNone l = (if l < 0 then Some ValueError else None)"
| "pack_val (PBool b) l = (if l < 0 then Some ValueError else None)"
| "pack_val (PInt i) l =
     (if l < 0 then Some ValueError
      else if - (2 ^ 63) \<le> i \<and> i < 2 ^ 64 then None
      else Some OverflowError)"
| "pack_val (PStr x) l = pack_str x l"
| "pack_val (PList xs) l =
     (if l < 0 then Some ValueError
      else if ITEM_LIMIT < length xs then Some ValueError
      else first_error (map (\<lambda>f. f (l - 1)) (map pack_val xs)))"
| "pack_val (PDict kvs) l =
     (if l < 0 then Some ValueError
      else
        let items = AList.clearjunk (map (map_prod id pack_val) kvs)
        in if ITEM_LIMIT < length items then Some ValueError
           else first_error (concat (map (\<lambda>(k, f). [pack_str k (l - 1), f (l - 1)]) items)))"

text \<open>
  \<^verbatim>\<open>UserContext = typing.Dict[str, typing.Any]\<close>: a context is a dict, and
  \<^verbatim>\<open>context['key']\<close> raises \<^verbatim>\<open>KeyError\<close> when the key is missing.
\<close>

type_synonym user_context = "(string \<times> pyval) list"

definition getitem :: "user_context \<Rightarrow> string \<Rightarrow> exc + pyval" where
  "getitem context k = subscript (PDict context) k"

text \<open>
  The attributes of \<^verbatim>\<open>_Parent\<close> (lines 26-32), with \<open>is_debug_enabled\<close> of the
  logging mixin, and those that \<^verbatim>\<open>AsyncParent._start_process\<close> adds (lines 111-140).
  \<open>hnd\<close> is the truth value of \<^verbatim>\<open>self._hnd\<close> (the task of the child process, or
  \<^verbatim>\<open>None\<close>), \<open>stdin\<close> is \<^verbatim>\<open>self._stdin\<close> (\<^verbatim>\<open>None\<close> until the child's
  pipe is connected), and \<open>proc_stderr\<close> is the text that
  \<^verbatim>\<open>str(self._proc.read_error())\<close> gives (\<^verbatim>\<open>_proc\<close> is set outside the file).
\<close>

record parent =
  loaded_filters :: "string set"
  is_debug_enabled :: bool
  vim_errors :: "host_msg list"

record async_parent = parent +
  hnd :: bool
  stdin :: "pipe option"
  queue_id :: string
  queue_in :: "envelope list"
  queue_out :: "pyval list"
  queue_err :: "string list"
  prev_pos :: pyval
  packed :: "envelope list"
  proc_stderr :: string

text \<open>
  \<^verbatim>\<open>SyncParent\<close> holds an in-process \<^verbatim>\<open>Child\<close> (\<^verbatim>\<open>deoplete.child\<close>, outside
  the file); \<open>child_calls\<close> logs the calls of \<^verbatim>\<open>self._child.main\<close>.
\<close>

record sync_parent = parent +
  child_calls :: "(string \<times> pyval list) list"

section \<open>The operations of \<^verbatim>\<open>_Parent\<close>\<close>

text \<open>
  \<^verbatim>\<open>_put\<close> is abstract in \<^verbatim>\<open>_Parent\<close>: the operations take it as a parameter,
  and each strategy passes its own. A \<^verbatim>\<open>_put\<close> gets the name and the arguments of
  the call and gives the id of the envelope, or \<^verbatim>\<open>None\<close>, or raises.
\<close>

type_synonym 'a put_method =
  "string \<Rightarrow> pyval list \<Rightarrow> 'a \<Rightarrow> (exc + string option) \<times> 'a"

text \<open>
  The six methods of lines 34-55 return \<^verbatim>\<open>None\<close>: their result is the exception
  that left the call of \<^verbatim>\<open>_put\<close>, if any, with the dispatcher as the call left
  it. \<open>discard_id\<close> drops the id that \<^verbatim>\<open>_put\<close> returned.
\<close>

definition discard_id :: "(exc + string option) \<times> 'a \<Rightarrow> exc option \<times> 'a" where
  "discard_id r = (case r of (Inl e, s) \<Rightarrow> (Some e, s) | (Inr qid, s) \<Rightarrow> (None, s))"

definition enable_logging ::
  "'a parent_scheme put_method \<Rightarrow> 'a parent_scheme \<Rightarrow> exc option \<times> 'a parent_scheme" where
  "enable_logging put s =
     (case put ''enable_logging'' [] s of
        (Inl e, s1) \<Rightarrow> (Some e, s1)
      | (Inr qid, s1) \<Rightarrow> (None, s1\<lparr>is_debug_enabled := True\<rparr>))"

definition add_source ::
  "'a parent_scheme put_method \<Rightarrow> string \<Rightarrow> 'a parent_scheme \<Rightarrow> exc option \<times> 'a parent_scheme" where
  "add_source put path s = discard_id (put ''add_source'' [PStr path] s)"

definition add_filter ::
  "'a parent_scheme put_method \<Rightarrow> string \<Rightarrow> 'a parent_scheme \<Rightarrow> exc option \<times> 'a parent_scheme" where
  "add_filter put path s =
     (if path \<in> loaded_filters s then (None, s)
      else discard_id
             (put ''add_filter'' [PStr path]
                (s\<lparr>loaded_filters := insert path (loaded_filters s)\<rparr>)))"

definition set_source_attributes ::
  "'a parent_scheme put_method \<Rightarrow> user_context \<Rightarrow> 'a parent_scheme \<Rightarrow>
   exc option \<times> 'a parent_scheme" where
  "set_source_attributes put context s =
     discard_id (put ''set_source_attributes'' [PDict context] s)"

definition set_custom ::
  "'a parent_scheme put_method \<Rightarrow> pyval \<Rightarrow> 'a parent_scheme \<Rightarrow> exc option \<times> 'a parent_scheme" where
  "set_custom put custom s = discard_id (put ''set_custom'' [custom] s)"

definition on_event ::
  "'a parent_scheme put_method \<Rightarrow> user_context \<Rightarrow> 'a parent_scheme \<Rightarrow>
   exc option \<times> 'a parent_scheme" where
  "on_event put context s = discard_id (put ''on_event'' [PDict context] s)"

section \<open>\<^verbatim>\<open>AsyncParent\<close>\<close>

text \<open>
  The loop of lines 184-185: while the outbound queue is not empty, take its first
  message and write it. A write that raises leaves the loop: the message taken is lost,
  the others stay queued. The result is the exception, if any, the pipe and the queue.
\<close>

fun write_all :: "pipe \<Rightarrow> envelope list \<Rightarrow> exc option \<times> pipe \<times> envelope list" where
  "write_all p [] = (None, p, [])"
| "write_all p (msg # msgs) =
     (case pipe_write p msg of
        Inl e \<Rightarrow> (Some e, p, msgs)
      | Inr p' \<Rightarrow> write_all p' msgs)"

text \<open>
  The call of the packer at lines 177-179,
  \<^verbatim>\<open>self._packer.pack({'name': name, 'args': args, 'queue_id': queue_id})\<close>: the
  exception it raises, if any.
\<close>

definition pack :: "envelope \<Rightarrow> exc option" where
  "pack msg =
     pack_val
       (PDict [(''name'', PStr (env_name msg)), (''args'', PList (env_args msg)),
               (''queue_id'', PStr (env_queue_id msg))])
       RECURSE_LIMIT"

text \<open>
  \<^verbatim>\<open>AsyncParent._put\<close> (lines 171-191). \<open>now\<close> is \<^verbatim>\<open>str(time.time())\<close>, the
  reading of the clock at the call. The text of a float is never empty; the model
  takes any string, and a theorem that needs \<open>now \<noteq> []\<close> assumes it. The call of
  the packer is in no \<^verbatim>\<open>try\<close>: its exception leaves \<^verbatim>\<open>_put\<close> before anything
  is queued. Of the writes only \<^verbatim>\<open>BrokenPipeError\<close> is caught; the pipe raises
  nothing else.
\<close>

definition put :: "string \<Rightarrow> async_parent put_method" where
  "put now name args s =
     (if \<not> hnd s then (Inr None, s)
      else
        let msg = \<lparr>env_name = name, env_args = args, env_queue_id = now\<rparr>
        in case pack msg of
             Some e \<Rightarrow> (Inl e, s)
           | None \<Rightarrow>
               (let s1 = s\<lparr>packed := packed s @ [msg], queue_in := queue_in s @ [msg]\<rparr>
                in case stdin s1 of
                     None \<Rightarrow> (Inr (Some now), s1)
                   | Some p \<Rightarrow>
                       (case write_all p (queue_in s1) of
                          (None, p', rest) \<Rightarrow>
                            (Inr (Some now), s1\<lparr>stdin := Some p', queue_in := rest\<rparr>)
                        | (Some e, p', rest) \<Rightarrow>
                            (Inr (Some now),
                             s1\<lparr>stdin := Some p', queue_in := rest,
                                vim_errors := vim_errors s1 @
                                  [ErrorTb ''Crash in child process'',
                                   Error (''stderr='' @ proc_stderr s1)],
                                hnd := False\<rparr>))))"

text \<open>
  The list comprehension of line 204,
  \<^verbatim>\<open>[x for x in outs if x['queue_id'] == queue_id]\<close>: the first frame whose
  subscripting raises ends it with that exception.
\<close>

fun matching :: "string \<Rightarrow> pyval list \<Rightarrow> exc + pyval list" where
  "matching qid [] = Inr []"
| "matching qid (x # outs) =
     (case subscript x ''queue_id'' of
        Inl e \<Rightarrow> Inl e
      | Inr v \<Rightarrow>
          (case matching qid outs of
             Inl e \<Rightarrow> Inl e
           | Inr xs \<Rightarrow> Inr (if py_eq v (PStr qid) then x # xs else xs)))"

definition contaminated :: string where
  "contaminated =
     ''\"stdout\" seems contaminated by sources. '' @
     ''\"stdout\" is used for RPC; Please pipe or discard''"

text \<open>
  \<^verbatim>\<open>AsyncParent._get\<close> (lines 193-209): the error queue is shown and emptied, the
  output queue is emptied into \<^verbatim>\<open>outs\<close>, and the frames of the id are returned.
  \<^verbatim>\<open>TypeError\<close> is caught; any other exception leaves the method.
\<close>

definition get :: "string \<Rightarrow> async_parent \<Rightarrow> (exc + pyval list) \<times> async_parent" where
  "get qid s =
     (if \<not> hnd s then (Inr [], s)
      else
        let s1 = s\<lparr>vim_errors := vim_errors s @ map Error (queue_err s), queue_err := []\<rparr>;
            outs = queue_out s1;
            s2 = s1\<lparr>queue_out := []\<rparr>
        in case matching qid outs of
             Inr xs \<Rightarrow> (Inr xs, s2)
           | Inl TypeError \<Rightarrow> (Inr [], s2\<lparr>vim_errors := vim_errors s2 @ [ErrorTb contaminated]\<rparr>)
           | Inl e \<Rightarrow> (Inl e, s2))"

text \<open>
  The tuple of lines 168-169 (and 75-76):
  \<^verbatim>\<open>(results['is_async'], results['is_async'], results['merged_results']) if results else (False, [])\<close>.
  A tuple is the list of its components.
\<close>

definition result_tuple :: "pyval \<Rightarrow> exc + pyval list" where
  "result_tuple results =
     (if truthy results then
        (case subscript results ''is_async'' of
           Inl e \<Rightarrow> Inl e
         | Inr a \<Rightarrow>
             (case subscript results ''is_async'' of
                Inl e \<Rightarrow> Inl e
              | Inr b \<Rightarrow>
                  (case subscript results ''merged_results'' of
                     Inl e \<Rightarrow> Inl e
                   | Inr m \<Rightarrow> Inr [a, b, m])))
      else Inr [PBool False, PList []])"

text \<open>
  \<^verbatim>\<open>AsyncParent.merge_results\<close> (lines 149-169) in its two parts. Lines 151-158
  choose the id: the condition of line 151 (\<^verbatim>\<open>and\<close> evaluates its operands from the
  left and stops at the first false one), then either the previous id or a call of
  \<^verbatim>\<open>_put\<close>, whose exception leaves \<^verbatim>\<open>merge_results\<close>; \<open>None\<close> stands for
  the \<^verbatim>\<open>return (False, False, [])\<close> of line 158.
\<close>

definition use_previous_id :: "user_context \<Rightarrow> async_parent \<Rightarrow> exc + bool" where
  "use_previous_id context s =
     (case getitem context ''event'' of
        Inl e \<Rightarrow> Inl e
      | Inr ev \<Rightarrow>
          if \<not> py_eq ev (PStr ''Async'') then Inr False
          else (case getitem context ''position'' of
                  Inl e \<Rightarrow> Inl e
                | Inr pos \<Rightarrow> Inr (py_eq pos (prev_pos s) \<and> queue_id s \<noteq> [])))"

definition choose_queue_id ::
  "string \<Rightarrow> user_context \<Rightarrow> async_parent \<Rightarrow> (exc + string option) \<times> async_parent" where
  "choose_queue_id now context s =
     (case use_previous_id context s of
        Inl e \<Rightarrow> (Inl e, s)
      | Inr True \<Rightarrow> (Inr (Some (queue_id s)), s)
      | Inr False \<Rightarrow>
          (case put now ''merge_results'' [PDict context] s of
             (Inl e, s1) \<Rightarrow> (Inl e, s1)
           | (Inr None, s1) \<Rightarrow> (Inr None, s1)
           | (Inr (Some qid), s1) \<Rightarrow>
               (if qid = [] then (Inr None, s1) else (Inr (Some qid), s1))))"

text \<open>Lines 160-169: the fetch of the response for the chosen id.\<close>

definition fetch_results ::
  "string \<Rightarrow> user_context \<Rightarrow> async_parent \<Rightarrow> (exc + pyval list) \<times> async_parent" where
  "fetch_results qid context s =
     (case get qid s of
        (Inl e, s1) \<Rightarrow> (Inl e, s1)
      | (Inr [], s1) \<Rightarrow>
          (let s2 = s1\<lparr>queue_id := qid\<rparr>
           in case getitem context ''position'' of
                Inl e \<Rightarrow> (Inl e, s2)
              | Inr pos \<Rightarrow> (Inr [PBool True, PBool False, PList []], s2\<lparr>prev_pos := pos\<rparr>))
      | (Inr (results # _), s1) \<Rightarrow> (result_tuple results, s1\<lparr>queue_id := []\<rparr>))"

definition merge_results ::
  "string \<Rightarrow> user_context \<Rightarrow> async_parent \<Rightarrow> (exc + pyval list) \<times> async_parent" where
  "merge_results now context s =
     (case choose_queue_id now context s of
        (Inl e, s1) \<Rightarrow> (Inl e, s1)
      | (Inr None, s1) \<Rightarrow> (Inr [PBool False, PBool False, PList []], s1)
      | (Inr (Some qid), s1) \<Rightarrow> fetch_results qid context s1)"

text \<open>\<^verbatim>\<open>AsyncParent._connect_stdin\<close> (lines 145-147).\<close>

definition connect_stdin :: "pipe \<Rightarrow> async_parent \<Rightarrow> async_parent" where
  "connect_stdin p s = s\<lparr>stdin := Some p\<rparr>"

section \<open>\<^verbatim>\<open>SyncParent\<close>\<close>

text \<open>
  \<^verbatim>\<open>SyncParent._put\<close> (lines 79-82) calls the child and returns \<^verbatim>\<open>None\<close>.
  \<^verbatim>\<open>SyncParent.merge_results\<close> (lines 72-77): \<open>results\<close> is what
  \<^verbatim>\<open>self._child._merge_results(context, queue_id=None)\<close> returned.
\<close>

definition sync_put :: "sync_parent put_method" where
  "sync_put name args s = (Inr None, s\<lparr>child_calls := child_calls s @ [(name, args)]\<rparr>)"

definition sync_merge_results :: "pyval \<Rightarrow> exc + pyval list" where
  "sync_merge_results results = result_tuple results"

section \<open>A session of an \<^verbatim>\<open>AsyncParent\<close>\<close>

text \<open>
  \<^verbatim>\<open>_Parent.__init__\<close> with \<^verbatim>\<open>AsyncParent._start_process\<close> (lines 26-32 and
  111-140): no filter is loaded, the queues are empty, there is no previous id or
  position, the pipe is not connected yet, and \<^verbatim>\<open>self._hnd\<close> is the task that
  starts the child. Nothing else in the file assigns \<^verbatim>\<open>self._hnd\<close> a task.
\<close>

definition start_process :: "string \<Rightarrow> async_parent" where
  "start_process err =
     \<lparr>loaded_filters = {}, is_debug_enabled = False, vim_errors = [],
      hnd = True, stdin = None, queue_id = [], queue_in = [], queue_out = [],
      queue_err = [], prev_pos = PList [], packed = [], proc_stderr = err\<rparr>"

text \<open>
  What happens to a dispatcher after its construction: a call of one of the seven
  methods of the capability set, each with the reading of the clock it would get, or an
  event of the child's streams. The pipe is connected by \<^verbatim>\<open>_connect_stdin\<close>; the
  stream callbacks of \<^verbatim>\<open>deoplete.process\<close> fill \<^verbatim>\<open>_queue_out\<close> with decoded
  frames and \<^verbatim>\<open>_queue_err\<close> with text. An exception that a method raises goes
  to its caller; the dispatcher stays as the call left it.
\<close>

datatype op =
    EnableLogging
  | AddSource string
  | AddFilter string
  | SetSourceAttributes user_context
  | SetCustom pyval
  | OnEvent user_context
  | MergeResults user_context
  | ConnectStdin pipe
  | ChildOutput pyval
  | ChildError string

fun step :: "string \<times> op \<Rightarrow> async_parent \<Rightarrow> async_parent" where
  "step (now, EnableLogging) s = snd (enable_logging (put now) s)"
| "step (now, AddSource path) s = snd (add_source (put now) path s)"
| "step (now, AddFilter path) s = snd (add_filter (put now) path s)"
| "step (now, SetSourceAttributes context) s = snd (set_source_attributes (put now) context s)"
| "step (now, SetCustom custom) s = snd (set_custom (put now) custom s)"
| "step (now, OnEvent context) s = snd (on_event (put now) context s)"
| "step (now, MergeResults context) s = snd (merge_results now context s)"
| "step (now, ConnectStdin p) s = connect_stdin p s"
| "step (now, ChildOutput x) s = s\<lparr>queue_out := queue_out s @ [x]\<rparr>"
| "step (now, ChildError e) s = s\<lparr>queue_err := queue_err s @ [e]\<rparr>"

definition run :: "(string \<times> op) list \<Rightarrow> async_parent \<Rightarrow> async_parent" where
  "run ops s = fold step ops s"

text \<open>
  The pipe that a sequence of operations leaves in \<^verbatim>\<open>self._stdin\<close> when none of
  them writes: the last one connected, or the one that was there.
\<close>

definition connected :: "(string \<times> op) list \<Rightarrow> pipe option \<Rightarrow> pipe option" where
  "connected ops p =
     fold (\<lambda>(now, x) q. case x of ConnectStdin p' \<Rightarrow> Some p' | _ \<Rightarrow> q) ops p"

text \<open>
  The pipe takes \<open>k\<close> more writes without breaking.
\<close>

definition accepts :: "pipe \<Rightarrow> nat \<Rightarrow> bool" where
  "accepts p k = (case writes_left p of None \<Rightarrow> True | Some n \<Rightarrow> k \<le> n)"

text \<open>
  The calls of the methods on a \<^verbatim>\<open>SyncParent\<close>. Its \<^verbatim>\<open>merge_results\<close>
  asks the child and assigns no attribute of the dispatcher; the events of the child's
  streams are those of an \<^verbatim>\<open>AsyncParent\<close> and leave a \<^verbatim>\<open>SyncParent\<close> as it
  is.
\<close>

fun sync_step :: "op \<Rightarrow> sync_parent \<Rightarrow> sync_parent" where
  "sync_step EnableLogging t = snd (enable_logging sync_put t)"
| "sync_step (AddSource path) t = snd (add_source sync_put path t)"
| "sync_step (AddFilter path) t = snd (add_filter sync_put path t)"
| "sync_step (SetSourceAttributes context) t = snd (set_source_attributes sync_put context t)"
| "sync_step (SetCustom custom) t = snd (set_custom sync_put custom t)"
| "sync_step (OnEvent context) t = snd (on_event sync_put context t)"
| "sync_step (MergeResults context) t = t"
| "sync_step (ConnectStdin p) t = t"
| "sync_step (ChildOutput x) t = t"
| "sync_step (ChildError e) t = t"

definition sync_run :: "op list \<Rightarrow> sync_parent \<Rightarrow> sync_parent" where
  "sync_run ops t = fold sync_step ops t"

section \<open>Concrete sessions\<close>

text \<open>
  The inputs at which the theorems below are evaluated: a context of a poll and one of
  an edit, a dispatcher that has sent a poll at time \<open>1.5\<close> and waits for its answer,
  the answer of the child to that poll, and a dispatcher whose pipe broke at its first
  write (the child was gone when the pipe was connected).
\<close>

definition poll_context :: user_context where
  "poll_context = [(''event'', PStr ''Async''), (''position'', PList [PInt 1, PInt 5])]"

definition typing_context :: user_context where
  "typing_context =
     [(''event'', PStr ''TextChangedI''), (''position'', PList [PInt 1, PInt 5])]"

definition polling :: async_parent where
  "polling = snd (merge_results ''1.5'' poll_context (start_process []))"

definition answer :: pyval where
  "answer = PDict [(''queue_id'', PStr ''1.5''), (''is_async'', PBool False),
                   (''merged_results'', PList [PStr ''foo'', PStr ''bar''])]"

definition broken_pipe :: pipe where
  "broken_pipe = \<lparr>written = [], writes_left = Some 0\<rparr>"

definition crashed :: async_parent where
  "crashed =
     run [(''0.1'', ConnectStdin broken_pipe), (''0.5'', AddSource ''src'')]
       (start_process ''boom'')"

text \<open>
  A dispatcher whose child has printed to its standard output: the decoder has queued
  an empty mapping and a bare string; and one where it has queued an empty mapping
  only.
\<close>

definition contaminated_session :: async_parent where
  "contaminated_session =
     run [(''1.0'', ChildOutput (PDict [])), (''1.1'', ChildOutput (PStr ''x''))]
       (start_process [])"

definition unkeyed_session :: async_parent where
  "unkeyed_session = run [(''1.0'', ChildOutput (PDict []))] (start_process [])"

text \<open>A context whose position holds \<open>2^64\<close>, an integer that msgpack does not pack.\<close>

definition wide_context :: user_context where
  "wide_context =
     [(''event'', PStr ''TextChangedI''), (''position'', PList [PInt 1, PInt (2 ^ 64)])]"

section \<open>Basic facts\<close>

lemmas pack_defs = pack_def pack_str_def ITEM_LIMIT_def RECURSE_LIMIT_def AList.delete_eq

lemmas defs = merge_results_def choose_queue_id_def use_previous_id_def getitem_def put_def
  get_def fetch_results_def start_process_def Let_def poll_context_def typing_context_def
  result_tuple_def sync_merge_results_def pack_defs

lemma py_eq_PStr: "py_eq v (PStr a) = (v = PStr a)"
  by (cases v) auto

lemma put_dead: "\<not> hnd s \<Longrightarrow> put now name args s = (Inr None, s)"
  by (simp add: put_def)

lemma get_dead: "\<not> hnd s \<Longrightarrow> get qid s = (Inr [], s)"
  by (simp add: get_def)

text \<open>\<^verbatim>\<open>_get\<close> touches the queues of the child's streams and the host only.\<close>

lemma get_keeps:
  "hnd (snd (get qid s)) = hnd s \<and> stdin (snd (get qid s)) = stdin s \<and>
   queue_in (snd (get qid s)) = queue_in s \<and> packed (snd (get qid s)) = packed s \<and>
   queue_id (snd (get qid s)) = queue_id s \<and> prev_pos (snd (get qid s)) = prev_pos s \<and>
   loaded_filters (snd (get qid s)) = loaded_filters s"
  by (simp add: get_def Let_def split: sum.splits exc.splits)

lemma fetch_results_keeps:
  "hnd (snd (fetch_results qid context s)) = hnd s \<and>
   stdin (snd (fetch_results qid context s)) = stdin s \<and>
   queue_in (snd (fetch_results qid context s)) = queue_in s \<and>
   packed (snd (fetch_results qid context s)) = packed s \<and>
   loaded_filters (snd (fetch_results qid context s)) = loaded_filters s"
proof -
  obtain r s1 where g: "get qid s = (r, s1)"
    by (cases "get qid s") auto
  have k: "hnd s1 = hnd s \<and> stdin s1 = stdin s \<and> queue_in s1 = queue_in s \<and>
           packed s1 = packed s \<and> loaded_filters s1 = loaded_filters s"
    using get_keeps [of qid s] g by simp
  show ?thesis
  proof (cases r)
    case (Inl e)
    then show ?thesis using g k by (simp add: fetch_results_def)
  next
    case (Inr xs)
    show ?thesis
    proof (cases xs)
      case Nil
      then show ?thesis
        using g k Inr by (simp add: fetch_results_def Let_def split: sum.splits)
    next
      case (Cons x rest)
      then show ?thesis
        using g k Inr by (simp add: fetch_results_def)
    qed
  qed
qed

lemma fields_truthy: "subscript results k = Inr v \<Longrightarrow> truthy results"
  by (cases results) auto

lemma polling_eq:
  "polling =
     (start_process [])
       \<lparr>queue_id := ''1.5'', prev_pos := PList [PInt 1, PInt 5],
        queue_in := [\<lparr>env_name = ''merge_results'', env_args = [PDict poll_context],
                      env_queue_id = ''1.5''\<rparr>],
        packed := [\<lparr>env_name = ''merge_results'', env_args = [PDict poll_context],
                    env_queue_id = ''1.5''\<rparr>]\<rparr>"
  by (simp add: polling_def defs)

lemma crashed_eq:
  "crashed =
     (start_process ''boom'')
       \<lparr>hnd := False, stdin := Some broken_pipe,
        packed := [\<lparr>env_name = ''add_source'', env_args = [PStr ''src''],
                    env_queue_id = ''0.5''\<rparr>],
        vim_errors := [ErrorTb ''Crash in child process'', Error ''stderr=boom'']\<rparr>"
  by (simp add: crashed_def run_def add_source_def discard_id_def connect_stdin_def
      broken_pipe_def pipe_write_def defs)

section \<open>The poll of \<^verbatim>\<open>merge_results\<close>\<close>

text \<open>
  Claim C1. When the context's event is \<^verbatim>\<open>"Async"\<close>, its position equals the
  position recorded at the previous unanswered poll, and the id of that poll is still
  outstanding (not empty), \<^verbatim>\<open>AsyncParent.merge_results\<close> takes the outstanding id
  without calling \<^verbatim>\<open>_put\<close>: the whole call is the fetch of lines 160-169 for that
  id, nothing is packed, nothing is queued for writing and the pipe is not written to.
\<close>

theorem reuse_outstanding_id:
  assumes "getitem context ''event'' = Inr (PStr ''Async'')"
    and "getitem context ''position'' = Inr pos"
    and "py_eq pos (prev_pos s)"
    and "queue_id s \<noteq> []"
  shows "choose_queue_id now context s = (Inr (Some (queue_id s)), s) \<and>
         merge_results now context s = fetch_results (queue_id s) context s \<and>
         packed (snd (merge_results now context s)) = packed s \<and>
         queue_in (snd (merge_results now context s)) = queue_in s \<and>
         stdin (snd (merge_results now context s)) = stdin s"
proof -
  have prev: "use_previous_id context s = Inr True"
    using assms by (simp add: use_previous_id_def)
  then have choose: "choose_queue_id now context s = (Inr (Some (queue_id s)), s)"
    by (simp add: choose_queue_id_def)
  then have merge: "merge_results now context s = fetch_results (queue_id s) context s"
    by (simp add: merge_results_def)
  show ?thesis
    using choose merge fetch_results_keeps [of "queue_id s" "context" s] by simp
qed

theorem reuse_outstanding_id_witness:
  "getitem poll_context ''event'' = Inr (PStr ''Async'') \<and>
   queue_id polling = ''1.5'' \<and>
   choose_queue_id ''2.5'' poll_context polling = (Inr (Some ''1.5''), polling) \<and>
   packed (snd (merge_results ''2.5'' poll_context polling)) = packed polling"
proof -
  have ev: "getitem poll_context ''event'' = Inr (PStr ''Async'')"
    by (simp add: getitem_def poll_context_def)
  have pos: "getitem poll_context ''position'' = Inr (PList [PInt 1, PInt 5])"
    by (simp add: getitem_def poll_context_def)
  have same: "py_eq (PList [PInt 1, PInt 5]) (prev_pos polling)"
    by (simp add: polling_eq)
  have out: "queue_id polling \<noteq> []"
    by (simp add: polling_eq)
  have qid: "queue_id polling = ''1.5''"
    by (simp add: polling_eq)
  show ?thesis
    using reuse_outstanding_id [OF ev pos same out, of "''2.5''"] ev qid by auto
qed

text \<open>
  When \<^verbatim>\<open>_get\<close> returns no frame for the id that \<^verbatim>\<open>merge_results\<close> has, a
  fresh one or the outstanding one, the call returns \<^verbatim>\<open>(True, False, [])\<close> and
  records the pending poll. \<^verbatim>\<open>_get\<close> returns no frame when every drained frame is
  a mapping that carries a \<^verbatim>\<open>queue_id\<close> other than the id.
\<close>

lemma matching_none:
  assumes "\<forall>x\<in>set outs. \<exists>v. subscript x ''queue_id'' = Inr v \<and> \<not> py_eq v (PStr qid)"
  shows "matching qid outs = Inr []"
  using assms by (induction outs) auto

lemma get_none:
  assumes "\<forall>x\<in>set (queue_out s). \<exists>v. subscript x ''queue_id'' = Inr v \<and> \<not> py_eq v (PStr qid)"
  shows "fst (get qid s) = Inr []"
  using matching_none [OF assms] by (simp add: get_def Let_def)

lemma no_frame_pending_poll:
  assumes "choose_queue_id now context s = (Inr (Some qid), s1)"
    and "get qid s1 = (Inr [], s2)"
    and "getitem context ''position'' = Inr pos"
  shows "merge_results now context s =
           (Inr [PBool True, PBool False, PList []], s2\<lparr>queue_id := qid, prev_pos := pos\<rparr>)"
  using assms by (simp add: merge_results_def fetch_results_def)

lemma well_keyed_pending_poll:
  assumes "choose_queue_id now context s = (Inr (Some qid), s1)"
    and "\<forall>x\<in>set (queue_out s1). \<exists>v. subscript x ''queue_id'' = Inr v \<and> \<not> py_eq v (PStr qid)"
    and "getitem context ''position'' = Inr pos"
  shows "fst (merge_results now context s) = Inr [PBool True, PBool False, PList []] \<and>
         queue_id (snd (merge_results now context s)) = qid \<and>
         prev_pos (snd (merge_results now context s)) = pos"
proof -
  obtain s2 where g: "get qid s1 = (Inr [], s2)"
    using get_none [OF assms(2)] by (cases "get qid s1") auto
  show ?thesis
    using no_frame_pending_poll [OF assms(1) g assms(3)] by simp
qed

text \<open>
  Claim C2 does not hold of the code for every drained output without a frame of the
  id. On a dispatcher just started whose output queue holds an empty mapping,
  \<^verbatim>\<open>merge_results\<close> of an edit dispatches the id \<open>1.5\<close>; no drained frame
  carries that id; yet the comprehension of line 204 raises \<^verbatim>\<open>KeyError\<close>, the
  call does not return \<^verbatim>\<open>(True, False, [])\<close>, and no pending poll is recorded: the
  outstanding id is still empty and the previous position is still \<^verbatim>\<open>[]\<close>.
\<close>

theorem pending_poll_key_error:
  "fst (choose_queue_id ''1.5'' typing_context unkeyed_session) = Inr (Some ''1.5'') \<and>
   queue_out unkeyed_session = [PDict []] \<and>
   subscript (PDict []) ''queue_id'' = Inl KeyError \<and>
   fst (merge_results ''1.5'' typing_context unkeyed_session) = Inl KeyError \<and>
   queue_id (snd (merge_results ''1.5'' typing_context unkeyed_session)) = [] \<and>
   prev_pos (snd (merge_results ''1.5'' typing_context unkeyed_session)) = PList []"
  by (simp add: unkeyed_session_def run_def defs)

text \<open>
  Claim C3. When a result is obtained that carries \<^verbatim>\<open>is_async\<close> and
  \<^verbatim>\<open>merged_results\<close>, \<^verbatim>\<open>merge_results\<close> returns the 3-tuple
  \<^verbatim>\<open>(is_async, is_async, merged_results)\<close>, the first field twice. This holds for
  \<^verbatim>\<open>SyncParent\<close> (the result is what the child returned) and for
  \<^verbatim>\<open>AsyncParent\<close> (the result is the first frame that \<^verbatim>\<open>_get\<close> returns for
  the id), where the outstanding id is the empty string afterwards.
\<close>

theorem matched_result_tuple:
  assumes "subscript results ''is_async'' = Inr a"
    and "subscript results ''merged_results'' = Inr m"
  shows "sync_merge_results results = Inr [a, a, m] \<and>
         (\<forall>now context s qid s1 rest s2.
            choose_queue_id now context s = (Inr (Some qid), s1) \<longrightarrow>
            get qid s1 = (Inr (results # rest), s2) \<longrightarrow>
            merge_results now context s = (Inr [a, a, m], s2\<lparr>queue_id := []\<rparr>))"
proof -
  have "truthy results"
    using assms(1) by (rule fields_truthy)
  then have "result_tuple results = Inr [a, a, m]"
    using assms by (simp add: result_tuple_def)
  then show ?thesis
    by (simp add: sync_merge_results_def merge_results_def fetch_results_def)
qed

theorem matched_result_tuple_witness:
  "sync_merge_results answer =
     Inr [PBool False, PBool False, PList [PStr ''foo'', PStr ''bar'']] \<and>
   merge_results ''2.5'' poll_context (polling\<lparr>queue_out := [answer]\<rparr>) =
     (Inr [PBool False, PBool False, PList [PStr ''foo'', PStr ''bar'']],
      polling\<lparr>queue_id := []\<rparr>)"
proof -
  let ?s = "polling\<lparr>queue_out := [answer]\<rparr>"
  have a: "subscript answer ''is_async'' = Inr (PBool False)"
    by (simp add: answer_def)
  have m: "subscript answer ''merged_results'' = Inr (PList [PStr ''foo'', PStr ''bar''])"
    by (simp add: answer_def)
  have c: "choose_queue_id ''2.5'' poll_context ?s = (Inr (Some ''1.5''), ?s)"
    by (simp add: polling_eq choose_queue_id_def use_previous_id_def getitem_def
        poll_context_def start_process_def)
  have g: "get ''1.5'' ?s = (Inr [answer], polling)"
    by (simp add: polling_eq get_def Let_def start_process_def answer_def)
  show ?thesis
    using matched_result_tuple [OF a m] c g by blast
qed

text \<open>
  Claim C4. When the condition of line 151 is false, so that \<^verbatim>\<open>merge_results\<close>
  calls \<^verbatim>\<open>_put\<close>, and the process handle is cleared, \<^verbatim>\<open>_put\<close> gives no id and
  \<^verbatim>\<open>merge_results\<close> returns \<^verbatim>\<open>(False, False, [])\<close> at once: the dispatcher
  is exactly as before, so nothing was fetched and the pending poll is untouched.
\<close>

theorem dead_process_no_id:
  assumes "use_previous_id context s = Inr False"
    and "\<not> hnd s"
  shows "put now ''merge_results'' [PDict context] s = (Inr None, s) \<and>
         merge_results now context s = (Inr [PBool False, PBool False, PList []], s)"
  using assms by (simp add: merge_results_def choose_queue_id_def put_def)

theorem dead_process_no_id_witness:
  "use_previous_id typing_context crashed = Inr False \<and> \<not> hnd crashed \<and>
   merge_results ''1.5'' typing_context crashed =
     (Inr [PBool False, PBool False, PList []], crashed)"
proof -
  have u: "use_previous_id typing_context crashed = Inr False"
    by (simp add: use_previous_id_def getitem_def typing_context_def)
  have h: "\<not> hnd crashed"
    by (simp add: crashed_eq)
  show ?thesis
    using dead_process_no_id [OF u h, of "''1.5''"] u h by simp
qed

section \<open>The broken pipe\<close>

lemma write_all_breaks:
  "writes_left p = Some n \<Longrightarrow> n < length msgs \<Longrightarrow>
   fst (write_all p msgs) = Some BrokenPipeError"
proof (induction msgs arbitrary: p n)
  case Nil
  then show ?case by simp
next
  case (Cons msg msgs)
  show ?case
  proof (cases n)
    case 0
    then show ?thesis using Cons.prems by (simp add: pipe_write_def)
  next
    case (Suc k)
    let ?p = "p\<lparr>written := written p @ [msg], writes_left := Some k\<rparr>"
    have w: "pipe_write p msg = Inr ?p"
      using Cons.prems Suc by (simp add: pipe_write_def)
    have "fst (write_all ?p msgs) = Some BrokenPipeError"
      using Cons.prems Suc by (intro Cons.IH [of ?p k]) simp_all
    then show ?thesis using w by simp
  qed
qed

text \<open>
  A pipe that takes all the messages gets them in the order of the queue, and the queue
  is left empty.
\<close>

lemma write_all_accepts:
  "accepts p (length msgs) \<Longrightarrow>
   \<exists>p'. write_all p msgs = (None, p', []) \<and> written p' = written p @ msgs"
proof (induction msgs arbitrary: p)
  case Nil
  then show ?case by simp
next
  case (Cons msg msgs)
  show ?case
  proof (cases "writes_left p")
    case None
    let ?p = "p\<lparr>written := written p @ [msg]\<rparr>"
    have w: "pipe_write p msg = Inr ?p"
      using None by (simp add: pipe_write_def)
    have "accepts ?p (length msgs)"
      using None by (simp add: accepts_def)
    then obtain p' where "write_all ?p msgs = (None, p', [])" "written p' = written ?p @ msgs"
      using Cons.IH [of ?p] by blast
    then show ?thesis using w by simp
  next
    case (Some n)
    then obtain k where n: "n = Suc k" and k: "length msgs \<le> k"
      using Cons.prems by (cases n) (auto simp: accepts_def)
    let ?p = "p\<lparr>written := written p @ [msg], writes_left := Some k\<rparr>"
    have w: "pipe_write p msg = Inr ?p"
      using Some n by (simp add: pipe_write_def)
    have "accepts ?p (length msgs)"
      using k by (simp add: accepts_def)
    then obtain p' where "write_all ?p msgs = (None, p', [])" "written p' = written ?p @ msgs"
      using Cons.IH [of ?p] by blast
    then show ?thesis using w by simp
  qed
qed

lemma put_keeps:
  "loaded_filters (snd (put now name args s)) = loaded_filters s \<and>
   queue_id (snd (put now name args s)) = queue_id s \<and>
   prev_pos (snd (put now name args s)) = prev_pos s \<and>
   queue_out (snd (put now name args s)) = queue_out s"
  by (simp add: put_def Let_def split: option.splits prod.splits)

text \<open>
  When the packer raises, the exception leaves \<^verbatim>\<open>_put\<close> and the dispatcher is as
  before: nothing is packed, queued or written.
\<close>

lemma put_unpackable:
  "hnd s \<Longrightarrow> pack \<lparr>env_name = name, env_args = args, env_queue_id = now\<rparr> = Some e \<Longrightarrow>
   put now name args s = (Inl e, s)"
  by (simp add: put_def)

text \<open>
  While the handle is set, a \<^verbatim>\<open>_put\<close> whose envelope the packer takes returns the
  reading of the clock as the id and packs exactly one envelope, that of the call. The
  envelope is appended to the outbound queue: it stays there while the pipe is not
  connected, and it is written after the envelopes queued before it when the pipe takes
  them all.
\<close>

lemma put_live:
  assumes "hnd s"
    and "pack \<lparr>env_name = name, env_args = args, env_queue_id = now\<rparr> = None"
  shows "fst (put now name args s) = Inr (Some now) \<and>
         packed (snd (put now name args s)) =
           packed s @ [\<lparr>env_name = name, env_args = args, env_queue_id = now\<rparr>]"
  using assms by (simp add: put_def Let_def split: option.splits prod.splits)

lemma put_queued:
  assumes "hnd s"
    and "pack \<lparr>env_name = name, env_args = args, env_queue_id = now\<rparr> = None"
    and "stdin s = None"
  shows "queue_in (snd (put now name args s)) =
           queue_in s @ [\<lparr>env_name = name, env_args = args, env_queue_id = now\<rparr>] \<and>
         stdin (snd (put now name args s)) = None \<and> hnd (snd (put now name args s))"
  using assms by (simp add: put_def Let_def)

lemma put_written:
  assumes "hnd s"
    and "pack \<lparr>env_name = name, env_args = args, env_queue_id = now\<rparr> = None"
    and "stdin s = Some p"
    and "accepts p (Suc (length (queue_in s)))"
  shows "queue_in (snd (put now name args s)) = [] \<and>
         map_option written (stdin (snd (put now name args s))) =
           Some (written p @ queue_in s @
                 [\<lparr>env_name = name, env_args = args, env_queue_id = now\<rparr>]) \<and>
         hnd (snd (put now name args s))"
proof -
  let ?msg = "\<lparr>env_name = name, env_args = args, env_queue_id = now\<rparr>"
  have "accepts p (length (queue_in s @ [?msg]))"
    using assms(4) by simp
  then obtain p' where w: "write_all p (queue_in s @ [?msg]) = (None, p', [])"
    and p': "written p' = written p @ queue_in s @ [?msg]"
    using write_all_accepts [of p "queue_in s @ [?msg]"] by auto
  show ?thesis
    using assms(1-3) w p' by (simp add: put_def Let_def)
qed

lemma put_broken:
  assumes "hnd s" and "stdin s = Some p" and "writes_left p = Some n"
    and "n \<le> length (queue_in s)"
    and "pack \<lparr>env_name = name, env_args = args, env_queue_id = now\<rparr> = None"
  shows "\<not> hnd (snd (put now name args s))"
proof -
  let ?msgs = "queue_in s @ [\<lparr>env_name = name, env_args = args, env_queue_id = now\<rparr>]"
  have "fst (write_all p ?msgs) = Some BrokenPipeError"
    using assms by (intro write_all_breaks [of p n]) simp_all
  then show ?thesis
    using assms by (auto simp: put_def Let_def split: option.splits prod.splits)
qed

text \<open>One operation on a dispatcher whose handle is cleared.\<close>

lemma step_dead:
  assumes "\<not> hnd s"
  shows "\<not> hnd (step x s) \<and> packed (step x s) = packed s \<and>
         queue_in (step x s) = queue_in s \<and> stdin (step x s) = connected [x] (stdin s)"
proof (cases x)
  case (Pair now c)
  have m: "\<And>context. \<not> hnd (snd (merge_results now context s)) \<and>
             packed (snd (merge_results now context s)) = packed s \<and>
             queue_in (snd (merge_results now context s)) = queue_in s \<and>
             stdin (snd (merge_results now context s)) = stdin s"
    using assms fetch_results_keeps [of "queue_id s" _ s]
    by (auto simp: merge_results_def choose_queue_id_def put_dead split: sum.splits bool.splits)
  show ?thesis
    using assms Pair m
    by (cases c)
       (simp_all add: connected_def put_dead enable_logging_def add_source_def add_filter_def
          set_source_attributes_def set_custom_def on_event_def connect_stdin_def
          discard_id_def)
qed

lemma connected_Cons: "connected (x # ops) p = connected ops (connected [x] p)"
  by (simp add: connected_def)

text \<open>
  Claim C5. Once the process handle is cleared, no sequence of operations sets it
  again: after any calls of the seven methods and any events of the child's streams the
  handle is still cleared, every \<^verbatim>\<open>_put\<close> returns \<^verbatim>\<open>None\<close> and leaves the
  dispatcher as it is, no envelope has been packed or queued, and the pipe is the one
  last connected, with nothing written to it.
\<close>

theorem dead_handle_stays_dead:
  assumes "\<not> hnd s"
  shows "\<not> hnd (run ops s) \<and>
         put now name args (run ops s) = (Inr None, run ops s) \<and>
         packed (run ops s) = packed s \<and>
         queue_in (run ops s) = queue_in s \<and>
         stdin (run ops s) = connected ops (stdin s)"
proof -
  have inv: "\<not> hnd (run ops s) \<and> packed (run ops s) = packed s \<and>
             queue_in (run ops s) = queue_in s \<and> stdin (run ops s) = connected ops (stdin s)"
    using assms
  proof (induction ops arbitrary: s)
    case Nil
    then show ?case by (simp add: run_def connected_def)
  next
    case (Cons x ops)
    have one: "\<not> hnd (step x s) \<and> packed (step x s) = packed s \<and>
               queue_in (step x s) = queue_in s \<and> stdin (step x s) = connected [x] (stdin s)"
      using Cons.prems by (rule step_dead)
    have "run (x # ops) s = run ops (step x s)"
      by (simp add: run_def)
    then show ?case
      using Cons.IH [of "step x s"] one connected_Cons [of x ops "stdin s"] by simp
  qed
  then show ?thesis by (simp add: put_dead)
qed

theorem dead_handle_stays_dead_witness:
  "\<not> hnd crashed \<and>
   \<not> hnd (run [(''1.5'', EnableLogging), (''2.5'', MergeResults typing_context)] crashed) \<and>
   packed (run [(''1.5'', EnableLogging), (''2.5'', MergeResults typing_context)] crashed) =
     packed crashed \<and>
   stdin (run [(''1.5'', EnableLogging), (''2.5'', MergeResults typing_context)] crashed) =
     Some broken_pipe"
proof -
  have h: "\<not> hnd crashed"
    by (simp add: crashed_eq)
  have c: "connected [(''1.5'', EnableLogging), (''2.5'', MergeResults typing_context)]
             (stdin crashed) = Some broken_pipe"
    by (simp add: connected_def crashed_eq)
  show ?thesis
    using dead_handle_stays_dead
      [OF h, of "[(''1.5'', EnableLogging), (''2.5'', MergeResults typing_context)]"] h c
    by simp
qed

text \<open>
  Claim C10. When the pipe breaks during the writes of a \<^verbatim>\<open>_put\<close> (the packer has
  taken the envelope, and the pipe accepts fewer messages than the outbound queue holds
  with it), that \<^verbatim>\<open>_put\<close> clears the handle and still returns the new id. A
  \<^verbatim>\<open>merge_results\<close> that reaches \<^verbatim>\<open>_put\<close> then returns
  \<^verbatim>\<open>(True, False, [])\<close>, not \<^verbatim>\<open>(False, False, [])\<close>, and records the id and
  the position as the pending poll of a dispatcher whose handle is cleared.
\<close>

theorem broken_pipe_returns_id:
  assumes "hnd s" and "stdin s = Some p" and "writes_left p = Some n"
    and "n \<le> length (queue_in s)"
  shows "(pack \<lparr>env_name = name, env_args = args, env_queue_id = now\<rparr> = None \<longrightarrow>
            fst (put now name args s) = Inr (Some now) \<and>
            \<not> hnd (snd (put now name args s))) \<and>
         (pack \<lparr>env_name = ''merge_results'', env_args = [PDict context],
                 env_queue_id = now\<rparr> = None \<longrightarrow>
          use_previous_id context s = Inr False \<longrightarrow> now \<noteq> [] \<longrightarrow>
          getitem context ''position'' = Inr pos \<longrightarrow>
            merge_results now context s =
              (Inr [PBool True, PBool False, PList []],
               (snd (put now ''merge_results'' [PDict context] s))
                 \<lparr>queue_id := now, prev_pos := pos\<rparr>) \<and>
            \<not> hnd (snd (merge_results now context s)))"
proof -
  have live: "fst (put now name args s) = Inr (Some now)"
    if "pack \<lparr>env_name = name, env_args = args, env_queue_id = now\<rparr> = None"
    for name args
    using assms(1) that by (simp add: put_live)
  have dead: "\<not> hnd (snd (put now name args s))"
    if "pack \<lparr>env_name = name, env_args = args, env_queue_id = now\<rparr> = None"
    for name args
    using assms that by (rule put_broken)
  have "merge_results now context s =
          (Inr [PBool True, PBool False, PList []],
           (snd (put now ''merge_results'' [PDict context] s))
             \<lparr>queue_id := now, prev_pos := pos\<rparr>)"
    if pk: "pack \<lparr>env_name = ''merge_results'', env_args = [PDict context],
                   env_queue_id = now\<rparr> = None"
      and u: "use_previous_id context s = Inr False" "now \<noteq> []"
      "getitem context ''position'' = Inr pos"
  proof -
    obtain s1 where p: "put now ''merge_results'' [PDict context] s = (Inr (Some now), s1)"
      using live [OF pk]
      by (cases "put now ''merge_results'' [PDict context] s") auto
    have "\<not> hnd s1"
      using dead [OF pk] p by simp
    then have "get now s1 = (Inr [], s1)"
      by (rule get_dead)
    then show ?thesis
      using u p by (simp add: merge_results_def choose_queue_id_def fetch_results_def)
  qed
  then show ?thesis
    using live dead by simp
qed

theorem broken_pipe_returns_id_witness:
  "fst (put ''1.5'' ''merge_results'' [PDict typing_context]
         (connect_stdin broken_pipe (start_process []))) = Inr (Some ''1.5'') \<and>
   fst (merge_results ''1.5'' typing_context (connect_stdin broken_pipe (start_process []))) =
     Inr [PBool True, PBool False, PList []] \<and>
   queue_id (snd (merge_results ''1.5'' typing_context
                    (connect_stdin broken_pipe (start_process [])))) = ''1.5'' \<and>
   \<not> hnd (snd (merge_results ''1.5'' typing_context
                  (connect_stdin broken_pipe (start_process []))))"
proof -
  let ?s = "connect_stdin broken_pipe (start_process [])"
  have h: "hnd ?s" by (simp add: connect_stdin_def start_process_def)
  have i: "stdin ?s = Some broken_pipe" by (simp add: connect_stdin_def)
  have w: "writes_left broken_pipe = Some 0" by (simp add: broken_pipe_def)
  have n: "0 \<le> length (queue_in ?s)" by simp
  have k: "pack \<lparr>env_name = ''merge_results'', env_args = [PDict typing_context],
                  env_queue_id = ''1.5''\<rparr> = None"
    by (simp add: pack_defs typing_context_def)
  have u: "use_previous_id typing_context ?s = Inr False"
    by (simp add: use_previous_id_def getitem_def typing_context_def)
  have t: "''1.5'' \<noteq> []" by simp
  have p: "getitem typing_context ''position'' = Inr (PList [PInt 1, PInt 5])"
    by (simp add: getitem_def typing_context_def)
  show ?thesis
    using broken_pipe_returns_id
      [OF h i w n, of "''merge_results''" "[PDict typing_context]" "''1.5''" typing_context
        "PList [PInt 1, PInt 5]"] k u t p
    by simp
qed

section \<open>Fresh envelopes\<close>

text \<open>
  After the \<^verbatim>\<open>_put\<close> of a \<^verbatim>\<open>merge_results\<close> that does not take the previous
  id, the rest of the call leaves the packer, the outbound queue and the pipe alone.
\<close>

lemma merge_results_after_put:
  assumes "use_previous_id context s = Inr False"
  shows "packed (snd (merge_results now context s)) =
           packed (snd (put now ''merge_results'' [PDict context] s)) \<and>
         queue_in (snd (merge_results now context s)) =
           queue_in (snd (put now ''merge_results'' [PDict context] s)) \<and>
         stdin (snd (merge_results now context s)) =
           stdin (snd (put now ''merge_results'' [PDict context] s)) \<and>
         loaded_filters (snd (merge_results now context s)) = loaded_filters s"
proof -
  obtain r s1 where p: "put now ''merge_results'' [PDict context] s = (r, s1)"
    by (cases "put now ''merge_results'' [PDict context] s") auto
  have l: "loaded_filters s1 = loaded_filters s"
    using put_keeps [of now "''merge_results''" "[PDict context]" s] p by simp
  show ?thesis
  proof (cases r)
    case (Inl e)
    then show ?thesis
      using assms p l by (simp add: merge_results_def choose_queue_id_def)
  next
    case (Inr q)
    show ?thesis
    proof (cases q)
      case None
      then show ?thesis
        using assms p l Inr by (simp add: merge_results_def choose_queue_id_def)
    next
      case (Some qid)
      then show ?thesis
        using assms p l Inr fetch_results_keeps [of qid "context" s1]
        by (simp add: merge_results_def choose_queue_id_def)
    qed
  qed
qed

text \<open>
  The packer does not take the context of an edit whose position holds \<open>2^64\<close>:
  \<^verbatim>\<open>OverflowError\<close> leaves \<^verbatim>\<open>merge_results\<close>, and nothing is dispatched.
\<close>

lemma merge_results_overflow:
  "merge_results ''1.5'' wide_context (start_process []) =
     (Inl OverflowError, start_process [])"
  by (simp add: wide_context_def defs)

text \<open>
  Claim C8, as stated, fails: on a dispatcher whose pipe has broken, a
  \<^verbatim>\<open>merge_results\<close> with the event \<^verbatim>\<open>TextChangedI\<close> returns
  \<^verbatim>\<open>(False, False, [])\<close> and dispatches no envelope, since \<^verbatim>\<open>_put\<close> returns at
  its guard of line 173: nothing is packed, queued or written.
\<close>

theorem no_envelope_when_dead:
  "getitem typing_context ''event'' = Inr (PStr ''TextChangedI'') \<and>
   merge_results ''1.5'' typing_context crashed =
     (Inr [PBool False, PBool False, PList []], crashed) \<and>
   packed (snd (merge_results ''1.5'' typing_context crashed)) = packed crashed \<and>
   queue_in (snd (merge_results ''1.5'' typing_context crashed)) = queue_in crashed \<and>
   stdin (snd (merge_results ''1.5'' typing_context crashed)) = stdin crashed"
  by (simp add: crashed_eq defs)

text \<open>
  Claim C8, amended. When the context's event is not \<^verbatim>\<open>"Async"\<close>,
  \<^verbatim>\<open>merge_results\<close> never takes the previous id, whatever the position, the
  previous position and the outstanding id are: it calls \<^verbatim>\<open>_put\<close>. While the
  process handle is set and the packer takes the envelope, \<^verbatim>\<open>_put\<close> gives the new
  reading of the clock as the id and the call dispatches exactly one envelope,
  \<^verbatim>\<open>merge_results\<close> of the context under that id: it is packed and appended to the
  outbound queue, where it stays while the pipe is not connected, and it is written to
  the pipe after the envelopes queued before it when the pipe takes them all. With the
  handle cleared nothing is dispatched and the call returns \<^verbatim>\<open>(False, False, [])\<close>,
  the dispatcher unchanged.
\<close>

theorem fresh_envelope_unless_async:
  assumes "getitem context ''event'' = Inr ev"
    and "ev \<noteq> PStr ''Async''"
  shows "use_previous_id context s = Inr False \<and>
         (\<not> hnd s \<longrightarrow>
            merge_results now context s = (Inr [PBool False, PBool False, PList []], s)) \<and>
         (hnd s \<longrightarrow>
          pack \<lparr>env_name = ''merge_results'', env_args = [PDict context],
                 env_queue_id = now\<rparr> = None \<longrightarrow>
            fst (put now ''merge_results'' [PDict context] s) = Inr (Some now) \<and>
            packed (snd (merge_results now context s)) =
              packed s @ [\<lparr>env_name = ''merge_results'', env_args = [PDict context],
                            env_queue_id = now\<rparr>] \<and>
            (stdin s = None \<longrightarrow>
               queue_in (snd (merge_results now context s)) =
                 queue_in s @ [\<lparr>env_name = ''merge_results'', env_args = [PDict context],
                                 env_queue_id = now\<rparr>]) \<and>
            (\<forall>p. stdin s = Some p \<longrightarrow> accepts p (Suc (length (queue_in s))) \<longrightarrow>
               queue_in (snd (merge_results now context s)) = [] \<and>
               map_option written (stdin (snd (merge_results now context s))) =
                 Some (written p @ queue_in s @
                       [\<lparr>env_name = ''merge_results'', env_args = [PDict context],
                          env_queue_id = now\<rparr>])))"
proof -
  let ?env = "\<lparr>env_name = ''merge_results'', env_args = [PDict context], env_queue_id = now\<rparr>"
  have u: "use_previous_id context s = Inr False"
    using assms by (simp add: use_previous_id_def py_eq_PStr)
  note after = merge_results_after_put [OF u, of now]
  have dead: "merge_results now context s = (Inr [PBool False, PBool False, PList []], s)"
    if "\<not> hnd s"
    using u that by (simp add: merge_results_def choose_queue_id_def put_dead)
  have live: "fst (put now ''merge_results'' [PDict context] s) = Inr (Some now) \<and>
              packed (snd (merge_results now context s)) = packed s @ [?env]"
    if "hnd s" "pack ?env = None"
    using put_live [OF that] after by simp
  have queued: "queue_in (snd (merge_results now context s)) = queue_in s @ [?env]"
    if "hnd s" "pack ?env = None" "stdin s = None"
    using put_queued [OF that] after by simp
  have sent: "queue_in (snd (merge_results now context s)) = [] \<and>
              map_option written (stdin (snd (merge_results now context s))) =
                Some (written p @ queue_in s @ [?env])"
    if "hnd s" "pack ?env = None" "stdin s = Some p" "accepts p (Suc (length (queue_in s)))"
    for p
    using put_written [OF that] after by simp
  show ?thesis
    using u dead live queued sent by blast
qed

theorem fresh_envelope_unless_async_witness:
  "use_previous_id typing_context polling = Inr False \<and>
   prev_pos polling = PList [PInt 1, PInt 5] \<and> queue_id polling = ''1.5'' \<and>
   packed (snd (merge_results ''2.5'' typing_context polling)) =
     packed polling @ [\<lparr>env_name = ''merge_results'', env_args = [PDict typing_context],
                         env_queue_id = ''2.5''\<rparr>] \<and>
   queue_in (snd (merge_results ''2.5'' typing_context polling)) =
     queue_in polling @ [\<lparr>env_name = ''merge_results'', env_args = [PDict typing_context],
                           env_queue_id = ''2.5''\<rparr>] \<and>
   merge_results ''2.5'' typing_context crashed =
     (Inr [PBool False, PBool False, PList []], crashed)"
proof -
  have e: "getitem typing_context ''event'' = Inr (PStr ''TextChangedI'')"
    by (simp add: getitem_def typing_context_def)
  have n: "PStr ''TextChangedI'' \<noteq> PStr ''Async''"
    by simp
  have h: "hnd polling" "\<not> hnd crashed" "stdin polling = None"
    by (simp_all add: polling_eq crashed_eq start_process_def)
  have k: "pack \<lparr>env_name = ''merge_results'', env_args = [PDict typing_context],
                  env_queue_id = ''2.5''\<rparr> = None"
    by (simp add: pack_defs typing_context_def)
  have q: "prev_pos polling = PList [PInt 1, PInt 5]" "queue_id polling = ''1.5''"
    by (simp_all add: polling_eq)
  show ?thesis
    using fresh_envelope_unless_async [OF e n, of polling "''2.5''"]
      fresh_envelope_unless_async [OF e n, of crashed "''2.5''"] h k q
    by simp
qed

section \<open>Loaded filters\<close>

text \<open>
  A path that is loaded stays loaded: no operation takes a path out of the set.
\<close>

lemma add_filter_loaded: "path \<in> loaded_filters s \<Longrightarrow> add_filter p path s = (None, s)"
  by (simp add: add_filter_def)

lemma discard_id_put_filters:
  "loaded_filters (snd (discard_id (put now name args s))) = loaded_filters s"
  using put_keeps [of now name args s]
  by (cases "put now name args s") (auto simp: discard_id_def split: sum.splits)

lemma step_filters:
  assumes "path \<in> loaded_filters s"
  shows "path \<in> loaded_filters (step x s)"
proof (cases x)
  case (Pair now c)
  have m: "loaded_filters (snd (merge_results now context s)) = loaded_filters s" for "context"
  proof (cases "use_previous_id context s")
    case (Inl e)
    then show ?thesis by (simp add: merge_results_def choose_queue_id_def)
  next
    case (Inr b)
    show ?thesis
    proof (cases b)
      case True
      then show ?thesis
        using Inr fetch_results_keeps [of "queue_id s" "context" s]
        by (simp add: merge_results_def choose_queue_id_def)
    next
      case False
      then show ?thesis
        using Inr merge_results_after_put [of "context" s now] by simp
    qed
  qed
  have e: "loaded_filters (snd (enable_logging (put now) s)) = loaded_filters s"
    using put_keeps [of now "''enable_logging''" "[]" s]
    by (cases "put now ''enable_logging'' [] s")
       (auto simp: enable_logging_def split: sum.splits)
  show ?thesis
    using assms Pair m e
    by (cases c)
       (simp_all add: add_source_def add_filter_def set_source_attributes_def set_custom_def
          on_event_def connect_stdin_def discard_id_put_filters)
qed

lemma run_filters: "path \<in> loaded_filters s \<Longrightarrow> path \<in> loaded_filters (run ops s)"
proof (induction ops arbitrary: s)
  case Nil
  then show ?case by (simp add: run_def)
next
  case (Cons x ops)
  have "path \<in> loaded_filters (step x s)"
    using Cons.prems by (rule step_filters)
  then have "path \<in> loaded_filters (run ops (step x s))"
    by (rule Cons.IH)
  then show ?case by (simp add: run_def)
qed

lemma sync_step_filters:
  "path \<in> loaded_filters t \<Longrightarrow> path \<in> loaded_filters (sync_step x t)"
  by (cases x)
     (simp_all add: enable_logging_def add_source_def add_filter_def
        set_source_attributes_def set_custom_def on_event_def discard_id_def sync_put_def)

lemma sync_run_filters:
  "path \<in> loaded_filters t \<Longrightarrow> path \<in> loaded_filters (sync_run ops t)"
proof (induction ops arbitrary: t)
  case Nil
  then show ?case by (simp add: sync_run_def)
next
  case (Cons x ops)
  have "path \<in> loaded_filters (sync_step x t)"
    using Cons.prems by (rule sync_step_filters)
  then have "path \<in> loaded_filters (sync_run ops (sync_step x t))"
    by (rule Cons.IH)
  then show ?case by (simp add: sync_run_def)
qed

text \<open>The envelope of an \<^verbatim>\<open>add_filter\<close> is packed unless a string is too long.\<close>

lemma pack_add_filter:
  "length path \<le> ITEM_LIMIT \<Longrightarrow> length now \<le> ITEM_LIMIT \<Longrightarrow>
   pack \<lparr>env_name = ''add_filter'', env_args = [PStr path], env_queue_id = now\<rparr> = None"
  by (simp add: pack_def pack_str_def RECURSE_LIMIT_def AList.delete_eq)
     (simp add: ITEM_LIMIT_def)

text \<open>
  Claim C9, as stated, fails: on a dispatcher whose pipe has broken, the first
  \<^verbatim>\<open>add_filter\<close> of a path dispatches no envelope: nothing is packed, queued or
  written.
\<close>

theorem add_filter_dead_no_envelope:
  "''f'' \<notin> loaded_filters crashed \<and>
   packed (snd (add_filter (put ''1.5'') ''f'' crashed)) = packed crashed \<and>
   queue_in (snd (add_filter (put ''1.5'') ''f'' crashed)) = queue_in crashed \<and>
   stdin (snd (add_filter (put ''1.5'') ''f'' crashed)) = stdin crashed"
  by (simp add: crashed_eq add_filter_def discard_id_def defs)

text \<open>
  Claim C9, amended. The first \<^verbatim>\<open>add_filter\<close> of a path adds it to the set of
  loaded filters of the dispatcher and calls \<^verbatim>\<open>_put\<close> once. An
  \<^verbatim>\<open>AsyncParent\<close> whose process handle is set and whose packer takes the envelope
  dispatches exactly one envelope, packed and appended to the outbound queue (and
  written after the envelopes queued before it when the pipe is connected and takes
  them all); with the handle cleared it dispatches none. A \<^verbatim>\<open>SyncParent\<close> calls
  its child once. Every later \<^verbatim>\<open>add_filter\<close> of the path on the same dispatcher,
  after any other calls and events, returns without changing the dispatcher.
\<close>

theorem add_filter_once:
  "(path \<notin> loaded_filters s \<longrightarrow>
      loaded_filters (snd (add_filter (put now) path s)) = insert path (loaded_filters s) \<and>
      (\<not> hnd s \<longrightarrow>
         packed (snd (add_filter (put now) path s)) = packed s \<and>
         queue_in (snd (add_filter (put now) path s)) = queue_in s \<and>
         stdin (snd (add_filter (put now) path s)) = stdin s) \<and>
      (hnd s \<longrightarrow>
       pack \<lparr>env_name = ''add_filter'', env_args = [PStr path], env_queue_id = now\<rparr> = None \<longrightarrow>
         packed (snd (add_filter (put now) path s)) =
           packed s @ [\<lparr>env_name = ''add_filter'', env_args = [PStr path],
                         env_queue_id = now\<rparr>] \<and>
         (stdin s = None \<longrightarrow>
            queue_in (snd (add_filter (put now) path s)) =
              queue_in s @ [\<lparr>env_name = ''add_filter'', env_args = [PStr path],
                              env_queue_id = now\<rparr>]) \<and>
         (\<forall>p. stdin s = Some p \<longrightarrow> accepts p (Suc (length (queue_in s))) \<longrightarrow>
            queue_in (snd (add_filter (put now) path s)) = [] \<and>
            map_option written (stdin (snd (add_filter (put now) path s))) =
              Some (written p @ queue_in s @
                    [\<lparr>env_name = ''add_filter'', env_args = [PStr path],
                       env_queue_id = now\<rparr>])))) \<and>
   (path \<in> loaded_filters s \<longrightarrow> add_filter (put now) path s = (None, s)) \<and>
   add_filter (put now') path (run ops (snd (add_filter (put now) path s))) =
     (None, run ops (snd (add_filter (put now) path s))) \<and>
   (path \<notin> loaded_filters t \<longrightarrow>
      add_filter sync_put path t =
        (None, t\<lparr>loaded_filters := insert path (loaded_filters t),
                  child_calls := child_calls t @ [(''add_filter'', [PStr path])]\<rparr>)) \<and>
   (path \<in> loaded_filters t \<longrightarrow> add_filter sync_put path t = (None, t)) \<and>
   add_filter sync_put path (sync_run calls (snd (add_filter sync_put path t))) =
     (None, sync_run calls (snd (add_filter sync_put path t)))"
proof -
  let ?env = "\<lparr>env_name = ''add_filter'', env_args = [PStr path], env_queue_id = now\<rparr>"
  let ?s = "s\<lparr>loaded_filters := insert path (loaded_filters s)\<rparr>"
  let ?r = "snd (add_filter (put now) path s)"
  have first: "?r = snd (put now ''add_filter'' [PStr path] ?s)" if "path \<notin> loaded_filters s"
    using that
    by (cases "put now ''add_filter'' [PStr path] ?s")
       (auto simp: add_filter_def discard_id_def split: sum.splits)
  have a: "loaded_filters ?r = insert path (loaded_filters s)" if "path \<notin> loaded_filters s"
    using first [OF that] put_keeps [of now "''add_filter''" "[PStr path]" ?s] by simp
  have b: "packed ?r = packed s \<and> queue_in ?r = queue_in s \<and> stdin ?r = stdin s"
    if "path \<notin> loaded_filters s" "\<not> hnd s"
    using first [OF that(1)] put_dead [of ?s now "''add_filter''" "[PStr path]"] that(2)
    by simp
  have c: "packed ?r = packed s @ [?env]"
    if "path \<notin> loaded_filters s" "hnd s" "pack ?env = None"
    using first [OF that(1)] put_live [of ?s "''add_filter''" "[PStr path]" now] that(2,3)
    by simp
  have d: "queue_in ?r = queue_in s @ [?env]"
    if "path \<notin> loaded_filters s" "hnd s" "pack ?env = None" "stdin s = None"
    using first [OF that(1)] put_queued [of ?s "''add_filter''" "[PStr path]" now] that(2-4)
    by simp
  have e: "queue_in ?r = [] \<and>
           map_option written (stdin ?r) = Some (written p @ queue_in s @ [?env])"
    if "path \<notin> loaded_filters s" "hnd s" "pack ?env = None" "stdin s = Some p"
      "accepts p (Suc (length (queue_in s)))" for p
    using first [OF that(1)] put_written [of ?s "''add_filter''" "[PStr path]" now p] that(2-5)
    by simp
  have "path \<in> loaded_filters ?r"
    using a by (cases "path \<in> loaded_filters s") (simp_all add: add_filter_def)
  then have "path \<in> loaded_filters (run ops ?r)"
    by (rule run_filters)
  then have f: "add_filter (put now') path (run ops ?r) = (None, run ops ?r)"
    by (rule add_filter_loaded)
  have g: "add_filter sync_put path t =
             (None, t\<lparr>loaded_filters := insert path (loaded_filters t),
                       child_calls := child_calls t @ [(''add_filter'', [PStr path])]\<rparr>)"
    if "path \<notin> loaded_filters t"
    using that by (simp add: add_filter_def discard_id_def sync_put_def)
  have "path \<in> loaded_filters (snd (add_filter sync_put path t))"
    using g by (cases "path \<in> loaded_filters t") (simp_all add: add_filter_def)
  then have "path \<in> loaded_filters (sync_run calls (snd (add_filter sync_put path t)))"
    by (rule sync_run_filters)
  then have h: "add_filter sync_put path (sync_run calls (snd (add_filter sync_put path t))) =
                  (None, sync_run calls (snd (add_filter sync_put path t)))"
    by (rule add_filter_loaded)
  show ?thesis
    using a b c d e f g h add_filter_loaded [of path s "put now"]
      add_filter_loaded [of path t sync_put]
    by blast
qed

theorem add_filter_once_witness:
  "loaded_filters (snd (add_filter (put ''1.5'') ''f'' (start_process []))) = {''f''} \<and>
   packed (snd (add_filter (put ''1.5'') ''f'' (start_process []))) =
     [\<lparr>env_name = ''add_filter'', env_args = [PStr ''f''], env_queue_id = ''1.5''\<rparr>] \<and>
   queue_in (snd (add_filter (put ''1.5'') ''f'' (start_process []))) =
     [\<lparr>env_name = ''add_filter'', env_args = [PStr ''f''], env_queue_id = ''1.5''\<rparr>] \<and>
   add_filter (put ''3.5'') ''f''
     (run [(''2.5'', AddSource ''src''), (''3.0'', ChildError ''warning'')]
        (snd (add_filter (put ''1.5'') ''f'' (start_process [])))) =
     (None,
      run [(''2.5'', AddSource ''src''), (''3.0'', ChildError ''warning'')]
        (snd (add_filter (put ''1.5'') ''f'' (start_process []))))"
proof -
  have k: "pack \<lparr>env_name = ''add_filter'', env_args = [PStr ''f''],
                  env_queue_id = ''1.5''\<rparr> = None"
    by (simp add: pack_defs)
  have i: "''f'' \<notin> loaded_filters (start_process [])" "hnd (start_process [])"
    "stdin (start_process []) = None" "packed (start_process []) = []"
    "queue_in (start_process []) = []" "loaded_filters (start_process []) = {}"
    by (simp_all add: start_process_def)
  show ?thesis
    using add_filter_once
      [of "''f''" "start_process []" "''1.5''" "''3.5''"
        "[(''2.5'', AddSource ''src''), (''3.0'', ChildError ''warning'')]"] k i
    by simp
qed

section \<open>Frames that are not responses\<close>

text \<open>
  When the comprehension of line 204 reaches a frame that is not a mapping, every frame
  before it being a mapping with a \<^verbatim>\<open>queue_id\<close>, \<^verbatim>\<open>_get\<close> catches the
  \<^verbatim>\<open>TypeError\<close>: it returns the empty list and shows the message about the
  contaminated standard output, after the text of the error queue.
\<close>

lemma matching_type_error:
  assumes "\<forall>y\<in>set pre. \<exists>v. subscript y ''queue_id'' = Inr v"
    and "subscript x ''queue_id'' = Inl TypeError"
  shows "matching qid (pre @ x # post) = Inl TypeError"
  using assms by (induction pre) (auto split: sum.splits)

lemma get_contaminated:
  assumes "hnd s" and "queue_out s = pre @ x # post"
    and "\<forall>y\<in>set pre. \<exists>v. subscript y ''queue_id'' = Inr v"
    and "subscript x ''queue_id'' = Inl TypeError"
  shows "get qid s =
           (Inr [],
            s\<lparr>vim_errors := vim_errors s @ map Error (queue_err s) @ [ErrorTb contaminated],
              queue_err := [], queue_out := []\<rparr>)"
  using assms(1,2) matching_type_error [OF assms(3,4), of qid post]
  by (simp add: get_def Let_def)

text \<open>
  Claim C6 does not hold of the code for every batch with a frame that is not a
  mapping. When a mapping without \<^verbatim>\<open>queue_id\<close> comes first, here the batch of an
  empty mapping and the string \<^verbatim>\<open>'x'\<close>, its subscripting raises
  \<^verbatim>\<open>KeyError\<close>, which line 205 does not catch: \<^verbatim>\<open>_get\<close> raises to its caller
  and shows no message.
\<close>

theorem get_raises_key_error:
  "hnd contaminated_session \<and> queue_out contaminated_session = [PDict [], PStr ''x''] \<and>
   fst (get ''1.5'' contaminated_session) = Inl KeyError \<and>
   vim_errors (snd (get ''1.5'' contaminated_session)) = []"
  by (simp add: contaminated_session_def run_def get_def Let_def start_process_def)

text \<open>
  Claim C7 does not hold of the code: with a decoded frame that is a mapping without
  \<^verbatim>\<open>queue_id\<close> in the output queue, \<^verbatim>\<open>merge_results\<close> raises
  \<^verbatim>\<open>KeyError\<close> to its caller.
\<close>

theorem merge_results_raises_key_error:
  "fst (merge_results ''1.5'' poll_context
         (run [(''1.0'', ChildOutput (PDict []))] (start_process []))) = Inl KeyError"
  by (simp add: run_def defs)

end
